theory Spec2Isabelle
  imports Main
begin

section \<open>The persistence layer (db.py)\<close>

text \<open>
  The two mapped classes of \<^verbatim>\<open>db.py\<close> are records, one field per column.  The column
  \<^verbatim>\<open>id\<close> of each table is renamed, since \<open>id\<close> is the identity function of HOL.
  Python integers are unbounded, so integer columns are \<open>int\<close>.
\<close>

record Activity =
  id_act :: int
  name :: string
  description :: "string option"
  schedule :: "string option"
  max_participants :: int

record Participant =
  id_part :: int
  email :: string
  activity_id :: int

text \<open>
  The store is the content of the two tables, each in insertion order.  A session that
  commits turns a store into the next one; a handler that raises before it commits leaves
  the store as it was.
\<close>

record store =
  activities_tbl :: "Activity list"
  participants_tbl :: "Participant list"

definition empty_store :: store where
  "empty_store = \<lparr>activities_tbl = [], participants_tbl = []\<rparr>"

text \<open>
  \<^verbatim>\<open>Query.first()\<close>: the first row of the result, or \<^verbatim>\<open>None\<close>.
\<close>

definition first_row :: "'a list \<Rightarrow> 'a option" where
  "first_row rows = (case rows of [] \<Rightarrow> None | r # _ \<Rightarrow> Some r)"

text \<open>
  An \<^verbatim>\<open>Integer\<close> primary key that is left unset is filled in by the store: one more
  than the largest key of the table, and 1 in an empty table.
\<close>

definition next_id :: "int list \<Rightarrow> int" where
  "next_id ids = (case ids of [] \<Rightarrow> 1 | k # ks \<Rightarrow> fold max ks k + 1)"

text \<open>
  The relationship \<^verbatim>\<open>Activity.participants\<close>: the rows of \<^verbatim>\<open>participants\<close> whose foreign
  key is the activity's id.
\<close>

definition participants :: "store \<Rightarrow> Activity \<Rightarrow> Participant list" where
  "participants s act = filter (\<lambda>p. activity_id p = id_act act) (participants_tbl s)"

text \<open>
  \<^verbatim>\<open>db.add(Participant(email=email, activity_id=act.id))\<close>, flushed.
\<close>

definition add_participant :: "string \<Rightarrow> int \<Rightarrow> store \<Rightarrow> store" where
  "add_participant e aid s =
     s\<lparr>participants_tbl := participants_tbl s @
         [\<lparr>id_part = next_id (map id_part (participants_tbl s)), email = e, activity_id = aid\<rparr>]\<rparr>"

text \<open>
  \<^verbatim>\<open>db.delete(p)\<close>, flushed: the row is deleted by its primary key.
\<close>

definition delete_participant :: "Participant \<Rightarrow> store \<Rightarrow> store" where
  "delete_participant p s =
     s\<lparr>participants_tbl := filter (\<lambda>q. id_part q \<noteq> id_part p) (participants_tbl s)\<rparr>"

subsection \<open>Seeding\<close>

text \<open>
  One value of the seed dictionary.  Each key is read with \<^verbatim>\<open>info.get\<close>, so each may be
  missing: \<open>None\<close>.
\<close>

record info =
  info_description :: "string option"
  info_schedule :: "string option"
  info_max_participants :: "int option"
  info_participants :: "string list option"

text \<open>
  A Python dictionary keeps its items in insertion order, and \<^verbatim>\<open>init_db\<close> gives out ids in
  that order: the seed is an association list.  The keys of a dictionary are distinct and
  seeding only runs on an empty \<^verbatim>\<open>activities\<close> table, so the unique constraint on
  \<^verbatim>\<open>Activity.name\<close> cannot fail there; failures of the store itself (a lost connection,
  a full disk) are outside the model.
\<close>

type_synonym seed = "(string \<times> info) list"

text \<open>
  \<^verbatim>\<open>info.get("max_participants") or 0\<close>.
\<close>

definition or_zero :: "int option \<Rightarrow> int" where
  "or_zero v = (case v of None \<Rightarrow> 0 | Some n \<Rightarrow> if n \<noteq> 0 then n else 0)"

text \<open>
  The body of the loop of \<^verbatim>\<open>init_db\<close>: one activity is added and flushed, which gives it
  its id, then its participants are added.
\<close>

fun seed_entry :: "string \<times> info \<Rightarrow> store \<Rightarrow> store" where
  "seed_entry (nm, i) s =
     (let act = \<lparr>id_act = next_id (map id_act (activities_tbl s)),
                 name = nm,
                 description = info_description i,
                 schedule = info_schedule i,
                 max_participants = or_zero (info_max_participants i)\<rparr>;
          s1 = s\<lparr>activities_tbl := activities_tbl s @ [act]\<rparr>
      in fold (\<lambda>e. add_participant e (id_act act))
           (case info_participants i of None \<Rightarrow> [] | Some es \<Rightarrow> es) s1)"

definition init_db :: "seed option \<Rightarrow> store \<Rightarrow> store" where
  "init_db seed_data s =
     (case seed_data of
        None \<Rightarrow> s
      | Some sd \<Rightarrow>
          if sd = [] then s
          else if int (length (activities_tbl s)) > 0 then s
          else fold seed_entry sd s)"

section \<open>The request handlers (app.py)\<close>

datatype HTTPException = HTTPException int string

text \<open>
  A handler returns its response, which is the exception it raised or its message, and the
  store it leaves behind.
\<close>

type_synonym response = "HTTPException + string"

definition signup_for_activity :: "string \<Rightarrow> string \<Rightarrow> store \<Rightarrow> response \<times> store" where
  "signup_for_activity activity_name e s =
     (case first_row (filter (\<lambda>a. name a = activity_name) (activities_tbl s)) of
        None \<Rightarrow> (Inl (HTTPException 404 ''Activity not found''), s)
      | Some act \<Rightarrow>
          (case first_row (filter (\<lambda>p. activity_id p = id_act act \<and> email p = e)
                            (participants_tbl s)) of
             Some existing \<Rightarrow> (Inl (HTTPException 400 ''Student is already signed up''), s)
           | None \<Rightarrow>
               if max_participants act \<noteq> 0
                  \<and> int (length (participants s act)) \<ge> max_participants act
               then (Inl (HTTPException 400 ''Activity is full''), s)
               else (Inr (''Signed up '' @ e @ '' for '' @ activity_name),
                     add_participant e (id_act act) s)))"

definition unregister_from_activity :: "string \<Rightarrow> string \<Rightarrow> store \<Rightarrow> response \<times> store" where
  "unregister_from_activity activity_name e s =
     (case first_row (filter (\<lambda>a. name a = activity_name) (activities_tbl s)) of
        None \<Rightarrow> (Inl (HTTPException 404 ''Activity not found''), s)
      | Some act \<Rightarrow>
          (case first_row (filter (\<lambda>p. activity_id p = id_act act \<and> email p = e)
                            (participants_tbl s)) of
             None \<Rightarrow> (Inl (HTTPException 400 ''Student is not signed up for this activity''), s)
           | Some p \<Rightarrow>
               (Inr (''Unregistered '' @ e @ '' from '' @ activity_name),
                delete_participant p s)))"

text \<open>
  The seed of \<^verbatim>\<open>app.py\<close>.
\<close>

definition mk_info :: "string \<Rightarrow> string \<Rightarrow> int \<Rightarrow> string list \<Rightarrow> info" where
  "mk_info d sch m ps =
     \<lparr>info_description = Some d, info_schedule = Some sch,
      info_max_participants = Some m, info_participants = Some ps\<rparr>"

definition activities :: seed where
  "activities =
    [(''Chess Club'',
        mk_info ''Learn strategies and compete in chess tournaments''
          ''Fridays, 3:30 PM - 5:00 PM'' 12
          [''michael@mergington.edu'', ''daniel@mergington.edu'']),
     (''Programming Class'',
        mk_info ''Learn programming fundamentals and build software projects''
          ''Tuesdays and Thursdays, 3:30 PM - 4:30 PM'' 20
          [''emma@mergington.edu'', ''sophia@mergington.edu'']),
     (''Gym Class'',
        mk_info ''Physical education and sports activities''
          ''Mondays, Wednesdays, Fridays, 2:00 PM - 3:00 PM'' 30
          [''john@mergington.edu'', ''olivia@mergington.edu'']),
     (''Soccer Team'',
        mk_info ''Join the school soccer team and compete in matches''
          ''Tuesdays and Thursdays, 4:00 PM - 5:30 PM'' 22
          [''liam@mergington.edu'', ''noah@mergington.edu'']),
     (''Basketball Team'',
        mk_info ''Practice and play basketball with the school team''
          ''Wednesdays and Fridays, 3:30 PM - 5:00 PM'' 15
          [''ava@mergington.edu'', ''mia@mergington.edu'']),
     (''Art Club'',
        mk_info ''Explore your creativity through painting and drawing''
          ''Thursdays, 3:30 PM - 5:00 PM'' 15
          [''amelia@mergington.edu'', ''harper@mergington.edu'']),
     (''Drama Club'',
        mk_info ''Act, direct, and produce plays and performances''
          ''Mondays and Wednesdays, 4:00 PM - 5:30 PM'' 20
          [''ella@mergington.edu'', ''scarlett@mergington.edu'']),
     (''Math Club'',
        mk_info ''Solve challenging problems and participate in math competitions''
          ''Tuesdays, 3:30 PM - 4:30 PM'' 10
          [''james@mergington.edu'', ''benjamin@mergington.edu'']),
     (''Debate Team'',
        mk_info ''Develop public speaking and argumentation skills''
          ''Fridays, 4:00 PM - 5:30 PM'' 12
          [''charlotte@mergington.edu'', ''henry@mergington.edu''])]"

text \<open>
  \<^verbatim>\<open>on_startup\<close>.
\<close>

definition on_startup :: "store \<Rightarrow> store" where
  "on_startup s = init_db (Some activities) s"

section \<open>Reachable stores\<close>

text \<open>
  The stores the application can be in: the one \<^verbatim>\<open>on_startup\<close> seeds in an empty
  database, and those that follow from it by one request at a time or by a restart.
\<close>

inductive reachable :: "store \<Rightarrow> bool" where
  seeded: "reachable (on_startup empty_store)"
| signup: "reachable s \<Longrightarrow> reachable (snd (signup_for_activity A e s))"
| unregister: "reachable s \<Longrightarrow> reachable (snd (unregister_from_activity A e s))"
| restart: "reachable s \<Longrightarrow> reachable (on_startup s)"

section \<open>Example stores\<close>

text \<open>
  A small store for concrete checks: a chess club of capacity 1 that is full, and an
  activity without a limit.
\<close>

definition example_chess :: Activity where
  "example_chess =
     \<lparr>id_act = 1, name = ''Chess Club'', description = None, schedule = None,
      max_participants = 1\<rparr>"

definition example_open :: Activity where
  "example_open =
     \<lparr>id_act = 2, name = ''Open Gym'', description = None, schedule = None,
      max_participants = 0\<rparr>"

definition example_store :: store where
  "example_store =
     \<lparr>activities_tbl = [example_chess, example_open],
      participants_tbl =
        [\<lparr>id_part = 1, email = ''a@x.edu'', activity_id = 1\<rparr>,
         \<lparr>id_part = 2, email = ''a@x.edu'', activity_id = 2\<rparr>]\<rparr>"

section \<open>Auxiliary lemmas\<close>

lemma first_row_None_iff: "first_row (filter P xs) = None \<longleftrightarrow> (\<forall>x\<in>set xs. \<not> P x)"
  by (induction xs) (auto simp: first_row_def)

lemma first_row_SomeD: "first_row (filter P xs) = Some x \<Longrightarrow> x \<in> set xs \<and> P x"
  by (induction xs) (auto simp: first_row_def split: if_splits)

lemma first_row_Some_split:
  "first_row (filter P xs) = Some x \<Longrightarrow>
   \<exists>ys zs. xs = ys @ x # zs \<and> (\<forall>y\<in>set ys. \<not> P y) \<and> P x"
proof (induction xs)
  case Nil
  then show ?case by (simp add: first_row_def)
next
  case (Cons a xs)
  show ?case
  proof (cases "P a")
    case True
    with Cons.prems have "a = x" by (simp add: first_row_def)
    with True have "a # xs = [] @ x # xs \<and> (\<forall>y\<in>set []. \<not> P y) \<and> P x" by simp
    then show ?thesis by blast
  next
    case False
    with Cons.prems have "first_row (filter P xs) = Some x" by simp
    from Cons.IH [OF this] obtain ys zs where
      "xs = ys @ x # zs" "\<forall>y\<in>set ys. \<not> P y" "P x" by blast
    with False have "a # xs = (a # ys) @ x # zs \<and> (\<forall>y\<in>set (a # ys). \<not> P y) \<and> P x" by simp
    then show ?thesis by blast
  qed
qed

lemma fold_max_bounds: "(k::int) \<le> fold max ks k \<and> (\<forall>x\<in>set ks. x \<le> fold max ks k)"
proof (induction ks arbitrary: k)
  case Nil
  show ?case by simp
next
  case (Cons a ks)
  have "max a k \<le> fold max ks (max a k)" "\<forall>x\<in>set ks. x \<le> fold max ks (max a k)"
    using Cons.IH [of "max a k"] by simp_all
  then show ?case by auto
qed

lemma next_id_fresh: "k \<in> set ids \<Longrightarrow> k < next_id ids"
  using fold_max_bounds by (cases ids) (auto simp: next_id_def intro: le_imp_less_Suc dest!: spec)

lemma activities_add_participant [simp]:
  "activities_tbl (add_participant e aid s) = activities_tbl s"
  by (simp add: add_participant_def)

lemma activities_fold_add_participant [simp]:
  "activities_tbl (fold (\<lambda>e. add_participant e aid) es s) = activities_tbl s"
  by (induction es arbitrary: s) simp_all

lemma activities_seed_entry:
  "activities_tbl (seed_entry (nm, i) s) =
     activities_tbl s @
       [\<lparr>id_act = next_id (map id_act (activities_tbl s)), name = nm,
         description = info_description i, schedule = info_schedule i,
         max_participants = or_zero (info_max_participants i)\<rparr>]"
  by (simp add: Let_def)

lemma length_activities_fold_seed_entry:
  "length (activities_tbl (fold seed_entry sd s)) = length (activities_tbl s) + length sd"
proof (induction sd arbitrary: s)
  case Nil
  show ?case by simp
next
  case (Cons x sd)
  obtain nm i where x: "x = (nm, i)" by (cases x)
  show ?case
    unfolding x fold_simps Cons.IH activities_seed_entry by simp
qed

lemma max_participants_fold_seed_entry:
  "map max_participants (activities_tbl (fold seed_entry sd s)) =
     map max_participants (activities_tbl s) @
       map (\<lambda>(nm, i). or_zero (info_max_participants i)) sd"
proof (induction sd arbitrary: s)
  case Nil
  show ?case by simp
next
  case (Cons x sd)
  obtain nm i where x: "x = (nm, i)" by (cases x)
  show ?case
    unfolding x fold_simps Cons.IH activities_seed_entry by simp
qed

lemma enrolled_iff:
  "e \<in> email ` set (participants s act) \<longleftrightarrow>
   first_row (filter (\<lambda>p. activity_id p = id_act act \<and> email p = e) (participants_tbl s)) \<noteq> None"
  by (auto simp: first_row_None_iff participants_def)

lemma seeded_activities:
  "map (\<lambda>a. (id_act a, max_participants a)) (activities_tbl (on_startup empty_store)) =
     [(1, 12), (2, 20), (3, 30), (4, 22), (5, 15), (6, 15), (7, 20), (8, 10), (9, 12)]"
  by (simp add: on_startup_def init_db_def activities_def mk_info_def empty_store_def
        Let_def add_participant_def next_id_def or_zero_def)

lemma seeded_participants:
  "map (\<lambda>p. (activity_id p, email p)) (participants_tbl (on_startup empty_store)) =
     [(1, ''michael@mergington.edu''), (1, ''daniel@mergington.edu''),
      (2, ''emma@mergington.edu''), (2, ''sophia@mergington.edu''),
      (3, ''john@mergington.edu''), (3, ''olivia@mergington.edu''),
      (4, ''liam@mergington.edu''), (4, ''noah@mergington.edu''),
      (5, ''ava@mergington.edu''), (5, ''mia@mergington.edu''),
      (6, ''amelia@mergington.edu''), (6, ''harper@mergington.edu''),
      (7, ''ella@mergington.edu''), (7, ''scarlett@mergington.edu''),
      (8, ''james@mergington.edu''), (8, ''benjamin@mergington.edu''),
      (9, ''charlotte@mergington.edu''), (9, ''henry@mergington.edu'')]"
  by (simp add: on_startup_def init_db_def activities_def mk_info_def empty_store_def
        Let_def add_participant_def next_id_def or_zero_def)

lemma signup_outcome:
  obtains (failed) x where "signup_for_activity A e s = (Inl x, s)"
  | (added) act where
      "first_row (filter (\<lambda>a. name a = A) (activities_tbl s)) = Some act"
      "\<forall>p\<in>set (participants_tbl s). \<not> (activity_id p = id_act act \<and> email p = e)"
      "max_participants act = 0 \<or> int (length (participants s act)) < max_participants act"
      "signup_for_activity A e s =
         (Inr (''Signed up '' @ e @ '' for '' @ A), add_participant e (id_act act) s)"
proof (cases "first_row (filter (\<lambda>a. name a = A) (activities_tbl s))")
  case None
  then have "signup_for_activity A e s = (Inl (HTTPException 404 ''Activity not found''), s)"
    by (simp add: signup_for_activity_def)
  then show ?thesis by (rule failed)
next
  case (Some act)
  show ?thesis
  proof (cases "first_row (filter (\<lambda>p. activity_id p = id_act act \<and> email p = e)
                  (participants_tbl s))")
    case ex: (Some existing)
    with Some have "signup_for_activity A e s =
        (Inl (HTTPException 400 ''Student is already signed up''), s)"
      by (simp add: signup_for_activity_def)
    then show ?thesis by (rule failed)
  next
    case None
    show ?thesis
    proof (cases "max_participants act \<noteq> 0
                  \<and> int (length (participants s act)) \<ge> max_participants act")
      case True
      with Some None have "signup_for_activity A e s =
          (Inl (HTTPException 400 ''Activity is full''), s)"
        by (simp add: signup_for_activity_def)
      then show ?thesis by (rule failed)
    next
      case False
      from None have "\<forall>p\<in>set (participants_tbl s). \<not> (activity_id p = id_act act \<and> email p = e)"
        by (simp only: first_row_None_iff)
      moreover from False
      have "max_participants act = 0 \<or> int (length (participants s act)) < max_participants act"
        by auto
      moreover from Some None False have "signup_for_activity A e s =
         (Inr (''Signed up '' @ e @ '' for '' @ A), add_participant e (id_act act) s)"
        by (auto simp: signup_for_activity_def)
      ultimately show ?thesis using Some by (intro added [of act])
    qed
  qed
qed

lemma unregister_outcome:
  obtains (failed) x where "unregister_from_activity A e s = (Inl x, s)"
  | (deleted) act p where
      "first_row (filter (\<lambda>a. name a = A) (activities_tbl s)) = Some act"
      "first_row (filter (\<lambda>p. activity_id p = id_act act \<and> email p = e)
         (participants_tbl s)) = Some p"
      "unregister_from_activity A e s =
         (Inr (''Unregistered '' @ e @ '' from '' @ A), delete_participant p s)"
  by (cases "first_row (filter (\<lambda>a. name a = A) (activities_tbl s))";
      cases "first_row (filter (\<lambda>p. activity_id p =
                id_act (the (first_row (filter (\<lambda>a. name a = A) (activities_tbl s))))
                \<and> email p = e) (participants_tbl s))")
     (auto simp: unregister_from_activity_def)

lemma activities_signup [simp]:
  "activities_tbl (snd (signup_for_activity A e s)) = activities_tbl s"
  by (cases A e s rule: signup_outcome) simp_all

lemma activities_delete_participant [simp]:
  "activities_tbl (delete_participant p s) = activities_tbl s"
  by (simp add: delete_participant_def)

lemma activities_unregister [simp]:
  "activities_tbl (snd (unregister_from_activity A e s)) = activities_tbl s"
  by (cases A e s rule: unregister_outcome) simp_all

lemma on_startup_nonempty: "activities_tbl s \<noteq> [] \<Longrightarrow> on_startup s = s"
  by (simp add: on_startup_def init_db_def)

lemma reachable_activities:
  "reachable s \<Longrightarrow> activities_tbl s = activities_tbl (on_startup empty_store)"
proof (induction rule: reachable.induct)
  case (restart s)
  have "activities_tbl (on_startup empty_store) \<noteq> []"
    using seeded_activities by auto
  with restart.IH have "on_startup s = s" by (simp add: on_startup_nonempty)
  with restart.IH show ?case by simp
qed simp_all

lemma reachable_distinct_ids:
  assumes "reachable s"
  shows "distinct (map id_act (activities_tbl s))"
proof -
  have "map id_act (activities_tbl (on_startup empty_store)) = [1, 2, 3, 4, 5, 6, 7, 8, 9]"
    using arg_cong [OF seeded_activities, of "map fst"] by (simp add: comp_def)
  then show ?thesis
    by (simp add: reachable_activities [OF assms])
qed

lemma participants_add_participant:
  "participants (add_participant e aid s) act =
     participants s act @
       (if aid = id_act act
        then [\<lparr>id_part = next_id (map id_part (participants_tbl s)), email = e,
               activity_id = aid\<rparr>]
        else [])"
  by (simp add: participants_def add_participant_def)

lemma participants_delete_participant:
  "participants (delete_participant p s) act =
     filter (\<lambda>q. id_part q \<noteq> id_part p) (participants s act)"
  by (auto simp: participants_def delete_participant_def intro: filter_cong)

lemma first_row_unique:
  assumes "distinct (map id_act as)"
    and "first_row (filter P as) = Some act" and "act' \<in> set as" and "id_act act' = id_act act"
  shows "act' = act"
proof -
  from first_row_SomeD [OF assms(2)] have "act \<in> set as" by simp
  with assms(1,3,4) show ?thesis
    by (meson distinct_map inj_onD)
qed

lemma signup_capacity:
  assumes ids: "distinct (map id_act (activities_tbl s))"
    and inv: "\<forall>act\<in>set (activities_tbl s). 0 < max_participants act \<longrightarrow>
               int (length (participants s act)) \<le> max_participants act"
  shows "\<forall>act\<in>set (activities_tbl (snd (signup_for_activity A e s))).
           0 < max_participants act \<longrightarrow>
           int (length (participants (snd (signup_for_activity A e s)) act))
             \<le> max_participants act"
proof (cases A e s rule: signup_outcome)
  case failed
  with inv show ?thesis by simp
next
  case (added act)
  show ?thesis
  proof (intro ballI impI)
    fix act'
    assume mem: "act' \<in> set (activities_tbl (snd (signup_for_activity A e s)))"
      and pos: "0 < max_participants act'"
    from mem have mem': "act' \<in> set (activities_tbl s)" by simp
    with inv pos have old: "int (length (participants s act')) \<le> max_participants act'"
      by blast
    show "int (length (participants (snd (signup_for_activity A e s)) act'))
            \<le> max_participants act'"
    proof (cases "id_act act' = id_act act")
      case True
      with ids added(1) mem' have "act' = act" by (rule first_row_unique)
      with added(3) pos have "int (length (participants s act')) < max_participants act'"
        by auto
      then show ?thesis
        by (simp add: added(4) participants_add_participant)
    next
      case False
      with old show ?thesis
        by (simp add: added(4) participants_add_participant)
    qed
  qed
qed

lemma unregister_capacity:
  assumes inv: "\<forall>act\<in>set (activities_tbl s). 0 < max_participants act \<longrightarrow>
               int (length (participants s act)) \<le> max_participants act"
  shows "\<forall>act\<in>set (activities_tbl (snd (unregister_from_activity A e s))).
           0 < max_participants act \<longrightarrow>
           int (length (participants (snd (unregister_from_activity A e s)) act))
             \<le> max_participants act"
proof (cases A e s rule: unregister_outcome)
  case failed
  with inv show ?thesis by simp
next
  case (deleted act p)
  show ?thesis
  proof (intro ballI impI)
    fix act'
    assume "act' \<in> set (activities_tbl (snd (unregister_from_activity A e s)))"
      and "0 < max_participants act'"
    with inv have "int (length (participants s act')) \<le> max_participants act'"
      by simp
    moreover
    have "length (participants (delete_participant p s) act') \<le> length (participants s act')"
      by (simp add: participants_delete_participant)
    ultimately
    show "int (length (participants (snd (unregister_from_activity A e s)) act'))
            \<le> max_participants act'"
      by (simp add: deleted(3))
  qed
qed

lemma seeded_capacity:
  "\<forall>act\<in>set (activities_tbl (on_startup empty_store)). 0 < max_participants act \<longrightarrow>
     int (length (participants (on_startup empty_store) act)) \<le> max_participants act"
  by (simp add: on_startup_def init_db_def activities_def mk_info_def empty_store_def
        Let_def add_participant_def next_id_def or_zero_def participants_def)

lemma signup_unique:
  assumes "distinct (map (\<lambda>p. (activity_id p, email p)) (participants_tbl s))"
  shows "distinct (map (\<lambda>p. (activity_id p, email p))
           (participants_tbl (snd (signup_for_activity A e s))))"
proof (cases A e s rule: signup_outcome)
  case failed
  with assms show ?thesis by simp
next
  case (added act)
  from added(2) have "(id_act act, e) \<notin> (\<lambda>p. (activity_id p, email p)) ` set (participants_tbl s)"
    by auto
  with assms show ?thesis
    by (simp add: added(4) add_participant_def)
qed

lemma unregister_unique:
  assumes "distinct (map (\<lambda>p. (activity_id p, email p)) (participants_tbl s))"
  shows "distinct (map (\<lambda>p. (activity_id p, email p))
           (participants_tbl (snd (unregister_from_activity A e s))))"
proof (cases A e s rule: unregister_outcome)
  case failed
  with assms show ?thesis by simp
next
  case (deleted act p)
  from assms show ?thesis
    by (simp add: deleted(3) delete_participant_def distinct_map_filter)
qed

lemma seeded_unique:
  "distinct (map (\<lambda>p. (activity_id p, email p)) (participants_tbl (on_startup empty_store)))"
  unfolding seeded_participants by simp

lemma delete_added_participant:
  "delete_participant
     \<lparr>id_part = next_id (map id_part (participants_tbl s)), email = e, activity_id = aid\<rparr>
     (add_participant e aid s) = s"
proof -
  have "\<forall>q\<in>set (participants_tbl s). id_part q \<noteq> next_id (map id_part (participants_tbl s))"
    using next_id_fresh [of _ "map id_part (participants_tbl s)"] by fastforce
  then have "filter (\<lambda>q. id_part q \<noteq> next_id (map id_part (participants_tbl s)))
      (participants_tbl s) = participants_tbl s"
    by (simp only: filter_id_conv) 
  then show ?thesis
    by (simp add: delete_participant_def add_participant_def)
qed

lemma signup_then_unregister:
  assumes "fst (signup_for_activity A e s) = Inr m"
  shows "unregister_from_activity A e (snd (signup_for_activity A e s)) =
           (Inr (''Unregistered '' @ e @ '' from '' @ A), s)"
proof (cases A e s rule: signup_outcome)
  case failed
  with assms show ?thesis by simp
next
  case (added act)
  let ?p = "\<lparr>id_part = next_id (map id_part (participants_tbl s)), email = e,
             activity_id = id_act act\<rparr>"
  from added(2)
  have "filter (\<lambda>p. activity_id p = id_act act \<and> email p = e) (participants_tbl s) = []"
    by (simp only: filter_empty_conv) 
  then have "first_row (filter (\<lambda>p. activity_id p = id_act act \<and> email p = e)
      (participants_tbl (add_participant e (id_act act) s))) = Some ?p"
    by (simp add: add_participant_def first_row_def)
  with added(1) have "unregister_from_activity A e (add_participant e (id_act act) s) =
      (Inr (''Unregistered '' @ e @ '' from '' @ A),
       delete_participant ?p (add_participant e (id_act act) s))"
    by (simp add: unregister_from_activity_def)
  then show ?thesis
    by (simp add: added(4) delete_added_participant)
qed

lemmas example_defs =
  example_store_def example_chess_def example_open_def first_row_def participants_def

lemma example_find_chess:
  "first_row (filter (\<lambda>a. name a = ''Chess Club'') (activities_tbl example_store))
     = Some example_chess"
  by (simp add: example_defs)

lemma example_find_open:
  "first_row (filter (\<lambda>a. name a = ''Open Gym'') (activities_tbl example_store))
     = Some example_open"
  by (simp add: example_defs)

lemma example_roster_chess:
  "map email (participants example_store example_chess) = [''a@x.edu'']"
  by (simp add: example_defs)

lemma example_roster_open:
  "map email (participants example_store example_open) = [''a@x.edu'']"
  by (simp add: example_defs)

lemmas seed_defs =
  on_startup_def init_db_def activities_def mk_info_def empty_store_def
  Let_def add_participant_def next_id_def or_zero_def

lemma seeded_find_chess:
  "\<exists>act. first_row (filter (\<lambda>a. name a = ''Chess Club'')
            (activities_tbl (on_startup empty_store))) = Some act
         \<and> id_act act = 1 \<and> max_participants act = 12"
  by (simp add: seed_defs first_row_def)

lemma seeded_signup_new:
  "fst (signup_for_activity ''Chess Club'' ''new@x.edu'' (on_startup empty_store)) =
     Inr ''Signed up new@x.edu for Chess Club''"
  by (simp add: seed_defs first_row_def signup_for_activity_def participants_def)

section \<open>Verified properties\<close>

text \<open>
  C1. The checks of \<^verbatim>\<open>signup_for_activity\<close> run in the order existence, duplicate,
  capacity, and the first one that fails decides the response.  With no activity of that
  name the response is 404, whatever else holds.  With an activity of that name and the
  email on its roster the response is 400 "Student is already signed up", with no condition
  on the capacity.  Only with the email not on the roster does the capacity test decide
  between 400 "Activity is full" and success.  On each failure the store is returned as it
  was.
\<close>

theorem signup_check_order:
  "((\<forall>a\<in>set (activities_tbl s). name a \<noteq> A) \<longrightarrow>
      signup_for_activity A e s = (Inl (HTTPException 404 ''Activity not found''), s))
   \<and> (\<forall>act. first_row (filter (\<lambda>a. name a = A) (activities_tbl s)) = Some act \<longrightarrow>
        (e \<in> email ` set (participants s act) \<longrightarrow>
           signup_for_activity A e s =
             (Inl (HTTPException 400 ''Student is already signed up''), s))
      \<and> (e \<notin> email ` set (participants s act)
           \<and> max_participants act \<noteq> 0
           \<and> int (length (participants s act)) \<ge> max_participants act \<longrightarrow>
           signup_for_activity A e s = (Inl (HTTPException 400 ''Activity is full''), s))
      \<and> (e \<notin> email ` set (participants s act)
           \<and> \<not> (max_participants act \<noteq> 0
                \<and> int (length (participants s act)) \<ge> max_participants act) \<longrightarrow>
           signup_for_activity A e s =
             (Inr (''Signed up '' @ e @ '' for '' @ A), add_participant e (id_act act) s)))"
proof (intro conjI impI allI)
  assume "\<forall>a\<in>set (activities_tbl s). name a \<noteq> A"
  then have "first_row (filter (\<lambda>a. name a = A) (activities_tbl s)) = None"
    by (simp only: first_row_None_iff)
  then show "signup_for_activity A e s = (Inl (HTTPException 404 ''Activity not found''), s)"
    by (simp add: signup_for_activity_def)
next
  fix act
  assume "first_row (filter (\<lambda>a. name a = A) (activities_tbl s)) = Some act"
    and "e \<in> email ` set (participants s act)"
  then show "signup_for_activity A e s =
      (Inl (HTTPException 400 ''Student is already signed up''), s)"
    by (auto simp: signup_for_activity_def enrolled_iff)
next
  fix act
  assume "first_row (filter (\<lambda>a. name a = A) (activities_tbl s)) = Some act"
    and "e \<notin> email ` set (participants s act) \<and> max_participants act \<noteq> 0
         \<and> int (length (participants s act)) \<ge> max_participants act"
  then show "signup_for_activity A e s = (Inl (HTTPException 400 ''Activity is full''), s)"
    by (simp add: signup_for_activity_def enrolled_iff)
next
  fix act
  assume "first_row (filter (\<lambda>a. name a = A) (activities_tbl s)) = Some act"
    and "e \<notin> email ` set (participants s act)
         \<and> \<not> (max_participants act \<noteq> 0
              \<and> int (length (participants s act)) \<ge> max_participants act)"
  then show "signup_for_activity A e s =
      (Inr (''Signed up '' @ e @ '' for '' @ A), add_participant e (id_act act) s)"
    by (auto simp: signup_for_activity_def enrolled_iff)
qed

theorem signup_check_order_witness:
  "first_row (filter (\<lambda>a. name a = ''Chess Club'') (activities_tbl example_store))
     = Some example_chess
   \<and> ''a@x.edu'' \<in> email ` set (participants example_store example_chess)
   \<and> max_participants example_chess \<noteq> 0
   \<and> int (length (participants example_store example_chess)) \<ge> max_participants example_chess
   \<and> signup_for_activity ''Chess Club'' ''a@x.edu'' example_store =
       (Inl (HTTPException 400 ''Student is already signed up''), example_store)
   \<and> ''b@x.edu'' \<notin> email ` set (participants example_store example_chess)
   \<and> signup_for_activity ''Chess Club'' ''b@x.edu'' example_store =
       (Inl (HTTPException 400 ''Activity is full''), example_store)
   \<and> signup_for_activity ''Unknown Club'' ''a@x.edu'' example_store =
       (Inl (HTTPException 404 ''Activity not found''), example_store)"
proof -
  have dup: "''a@x.edu'' \<in> email ` set (participants example_store example_chess)"
    and new: "''b@x.edu'' \<notin> email ` set (participants example_store example_chess)"
    using example_roster_chess by (simp_all flip: set_map)
  have full: "max_participants example_chess \<noteq> 0"
    "int (length (participants example_store example_chess)) \<ge> max_participants example_chess"
    by (simp_all add: example_defs)
  have unknown: "\<forall>a\<in>set (activities_tbl example_store). name a \<noteq> ''Unknown Club''"
    by (simp add: example_defs)
  from signup_check_order [of example_store "''Chess Club''" "''a@x.edu''"]
    example_find_chess dup
  have r1: "signup_for_activity ''Chess Club'' ''a@x.edu'' example_store =
       (Inl (HTTPException 400 ''Student is already signed up''), example_store)"
    by blast
  from signup_check_order [of example_store "''Chess Club''" "''b@x.edu''"]
    example_find_chess new full
  have r2: "signup_for_activity ''Chess Club'' ''b@x.edu'' example_store =
       (Inl (HTTPException 400 ''Activity is full''), example_store)"
    by blast
  from signup_check_order [of example_store "''Unknown Club''" "''a@x.edu''"] unknown
  have r3: "signup_for_activity ''Unknown Club'' ''a@x.edu'' example_store =
       (Inl (HTTPException 404 ''Activity not found''), example_store)"
    by blast
  from example_find_chess dup new full r1 r2 r3 show ?thesis
    by (intro conjI)
qed

text \<open>
  C2. For an activity found under the name \<open>A\<close> whose \<^verbatim>\<open>max_participants\<close> is positive
  and whose roster has at least that many rows, and an email that is not on that roster,
  the signup fails with 400 "Activity is full" and the store is unchanged.
\<close>

theorem signup_full:
  assumes "first_row (filter (\<lambda>a. name a = A) (activities_tbl s)) = Some act"
    and "max_participants act > 0"
    and "int (length (participants s act)) \<ge> max_participants act"
    and "e \<notin> email ` set (participants s act)"
  shows "signup_for_activity A e s = (Inl (HTTPException 400 ''Activity is full''), s)"
proof -
  have "first_row (filter (\<lambda>p. activity_id p = id_act act \<and> email p = e) (participants_tbl s)) = None"
    using assms(4) by (auto simp: first_row_None_iff participants_def)
  with assms(1-3) show ?thesis
    by (simp add: signup_for_activity_def)
qed

theorem signup_full_witness:
  "first_row (filter (\<lambda>a. name a = ''Chess Club'') (activities_tbl example_store))
     = Some example_chess
   \<and> max_participants example_chess > 0
   \<and> int (length (participants example_store example_chess)) \<ge> max_participants example_chess
   \<and> ''b@x.edu'' \<notin> email ` set (participants example_store example_chess)
   \<and> signup_for_activity ''Chess Club'' ''b@x.edu'' example_store =
       (Inl (HTTPException 400 ''Activity is full''), example_store)"
proof -
  have new: "''b@x.edu'' \<notin> email ` set (participants example_store example_chess)"
    using example_roster_chess by (simp flip: set_map)
  have full: "max_participants example_chess > 0"
    "int (length (participants example_store example_chess)) \<ge> max_participants example_chess"
    by (simp_all add: example_defs)
  from example_find_chess full new
    signup_full [OF example_find_chess full new]
  show ?thesis by (intro conjI)
qed

text \<open>
  C3. When a participant with that email already exists under the id of the activity found
  under the name \<open>A\<close>, the signup fails with 400 "Student is already signed up" and the
  store is unchanged.  The capacity of the activity and the size of its roster do not occur
  among the hypotheses.
\<close>

theorem signup_already_enrolled:
  assumes "first_row (filter (\<lambda>a. name a = A) (activities_tbl s)) = Some act"
    and "e \<in> email ` set (participants s act)"
  shows "signup_for_activity A e s = (Inl (HTTPException 400 ''Student is already signed up''), s)"
proof -
  have "first_row (filter (\<lambda>p. activity_id p = id_act act \<and> email p = e) (participants_tbl s)) \<noteq> None"
    using assms(2) by (auto simp: first_row_None_iff participants_def)
  with assms(1) show ?thesis
    by (auto simp: signup_for_activity_def)
qed

theorem signup_already_enrolled_witness:
  "first_row (filter (\<lambda>a. name a = ''Chess Club'') (activities_tbl example_store))
     = Some example_chess
   \<and> ''a@x.edu'' \<in> email ` set (participants example_store example_chess)
   \<and> int (length (participants example_store example_chess)) \<ge> max_participants example_chess
   \<and> signup_for_activity ''Chess Club'' ''a@x.edu'' example_store =
       (Inl (HTTPException 400 ''Student is already signed up''), example_store)"
proof -
  have dup: "''a@x.edu'' \<in> email ` set (participants example_store example_chess)"
    using example_roster_chess by (simp flip: set_map)
  have full:
    "int (length (participants example_store example_chess)) \<ge> max_participants example_chess"
    by (simp add: example_defs)
  from example_find_chess dup full
    signup_already_enrolled [OF example_find_chess dup]
  show ?thesis by (intro conjI)
qed

text \<open>
  C4. \<^verbatim>\<open>unregister_from_activity\<close>: with no activity of that name it fails with 404; with
  an activity of that name and the email not on its roster it fails with 400 "Student is
  not signed up for this activity"; in both cases the store is unchanged.  Otherwise it
  returns the confirmation message and deletes a participant row \<open>p\<close> of that activity with
  that email: the table was \<open>xs @ p # ys\<close>, the activities table is unchanged, and of the
  other rows \<open>xs @ ys\<close> exactly those with an id other than that of \<open>p\<close> stay, in their order;
  under the primary key of \<^verbatim>\<open>participants\<close> (distinct ids) that is all of them, so the table
  becomes \<open>xs @ ys\<close>.
\<close>

theorem unregister_cases:
  "((\<forall>a\<in>set (activities_tbl s). name a \<noteq> A) \<longrightarrow>
      unregister_from_activity A e s = (Inl (HTTPException 404 ''Activity not found''), s))
   \<and> (\<forall>act. first_row (filter (\<lambda>a. name a = A) (activities_tbl s)) = Some act \<longrightarrow>
        (e \<notin> email ` set (participants s act) \<longrightarrow>
           unregister_from_activity A e s =
             (Inl (HTTPException 400 ''Student is not signed up for this activity''), s))
      \<and> (e \<in> email ` set (participants s act) \<longrightarrow>
           (\<exists>p xs ys.
              participants_tbl s = xs @ p # ys
              \<and> activity_id p = id_act act \<and> email p = e
              \<and> fst (unregister_from_activity A e s) =
                  Inr (''Unregistered '' @ e @ '' from '' @ A)
              \<and> activities_tbl (snd (unregister_from_activity A e s)) = activities_tbl s
              \<and> participants_tbl (snd (unregister_from_activity A e s)) =
                  filter (\<lambda>q. id_part q \<noteq> id_part p) (xs @ ys)
              \<and> (distinct (map id_part (participants_tbl s)) \<longrightarrow>
                   participants_tbl (snd (unregister_from_activity A e s)) = xs @ ys))))"
proof (intro conjI impI allI)
  assume "\<forall>a\<in>set (activities_tbl s). name a \<noteq> A"
  then have "first_row (filter (\<lambda>a. name a = A) (activities_tbl s)) = None"
    by (simp only: first_row_None_iff)
  then show "unregister_from_activity A e s = (Inl (HTTPException 404 ''Activity not found''), s)"
    by (simp add: unregister_from_activity_def)
next
  fix act
  assume "first_row (filter (\<lambda>a. name a = A) (activities_tbl s)) = Some act"
    and "e \<notin> email ` set (participants s act)"
  then show "unregister_from_activity A e s =
      (Inl (HTTPException 400 ''Student is not signed up for this activity''), s)"
    by (simp add: unregister_from_activity_def enrolled_iff)
next
  fix act
  assume act: "first_row (filter (\<lambda>a. name a = A) (activities_tbl s)) = Some act"
    and "e \<in> email ` set (participants s act)"
  then obtain p where
    p: "first_row (filter (\<lambda>p. activity_id p = id_act act \<and> email p = e) (participants_tbl s)) = Some p"
    by (auto simp: enrolled_iff)
  from first_row_Some_split [OF p] obtain xs ys where
    split: "participants_tbl s = xs @ p # ys"
    and match: "activity_id p = id_act act" "email p = e"
    by blast
  from act p have run: "unregister_from_activity A e s =
      (Inr (''Unregistered '' @ e @ '' from '' @ A),
       s\<lparr>participants_tbl := filter (\<lambda>q. id_part q \<noteq> id_part p) (participants_tbl s)\<rparr>)"
    by (simp add: unregister_from_activity_def delete_participant_def)
  have rest: "participants_tbl (snd (unregister_from_activity A e s)) =
      filter (\<lambda>q. id_part q \<noteq> id_part p) (xs @ ys)"
    by (simp add: run split)
  have one: "participants_tbl (snd (unregister_from_activity A e s)) = xs @ ys"
    if "distinct (map id_part (participants_tbl s))"
  proof -
    from that have "\<forall>q\<in>set xs \<union> set ys. id_part q \<noteq> id_part p"
      unfolding split by (auto simp: image_iff)
    then have "filter (\<lambda>q. id_part q \<noteq> id_part p) (xs @ ys) = xs @ ys"
      by (simp add: filter_id_conv)
    with rest show ?thesis by simp
  qed
  have "participants_tbl s = xs @ p # ys
      \<and> activity_id p = id_act act \<and> email p = e
      \<and> fst (unregister_from_activity A e s) = Inr (''Unregistered '' @ e @ '' from '' @ A)
      \<and> activities_tbl (snd (unregister_from_activity A e s)) = activities_tbl s
      \<and> participants_tbl (snd (unregister_from_activity A e s)) =
          filter (\<lambda>q. id_part q \<noteq> id_part p) (xs @ ys)
      \<and> (distinct (map id_part (participants_tbl s)) \<longrightarrow>
           participants_tbl (snd (unregister_from_activity A e s)) = xs @ ys)"
    using split match rest one by (simp add: run)
  then show "\<exists>p xs ys.
      participants_tbl s = xs @ p # ys
      \<and> activity_id p = id_act act \<and> email p = e
      \<and> fst (unregister_from_activity A e s) = Inr (''Unregistered '' @ e @ '' from '' @ A)
      \<and> activities_tbl (snd (unregister_from_activity A e s)) = activities_tbl s
      \<and> participants_tbl (snd (unregister_from_activity A e s)) =
          filter (\<lambda>q. id_part q \<noteq> id_part p) (xs @ ys)
      \<and> (distinct (map id_part (participants_tbl s)) \<longrightarrow>
           participants_tbl (snd (unregister_from_activity A e s)) = xs @ ys)"
    by blast
qed

theorem unregister_cases_witness:
  "unregister_from_activity ''Unknown Club'' ''a@x.edu'' example_store =
     (Inl (HTTPException 404 ''Activity not found''), example_store)
   \<and> first_row (filter (\<lambda>a. name a = ''Chess Club'') (activities_tbl example_store))
       = Some example_chess
   \<and> ''b@x.edu'' \<notin> email ` set (participants example_store example_chess)
   \<and> unregister_from_activity ''Chess Club'' ''b@x.edu'' example_store =
       (Inl (HTTPException 400 ''Student is not signed up for this activity''), example_store)
   \<and> ''a@x.edu'' \<in> email ` set (participants example_store example_chess)
   \<and> distinct (map id_part (participants_tbl example_store))
   \<and> fst (unregister_from_activity ''Chess Club'' ''a@x.edu'' example_store) =
       Inr ''Unregistered a@x.edu from Chess Club''
   \<and> activities_tbl (snd (unregister_from_activity ''Chess Club'' ''a@x.edu'' example_store)) =
       [example_chess, example_open]
   \<and> participants_tbl (snd (unregister_from_activity ''Chess Club'' ''a@x.edu'' example_store)) =
       [\<lparr>id_part = 2, email = ''a@x.edu'', activity_id = 2\<rparr>]"
proof -
  have dup: "''a@x.edu'' \<in> email ` set (participants example_store example_chess)"
    and new: "''b@x.edu'' \<notin> email ` set (participants example_store example_chess)"
    using example_roster_chess by (simp_all flip: set_map)
  have unknown: "\<forall>a\<in>set (activities_tbl example_store). name a \<noteq> ''Unknown Club''"
    by (simp add: example_defs)
  have d: "distinct (map id_part (participants_tbl example_store))"
    by (simp add: example_defs)
  have tbl: "participants_tbl example_store =
      [\<lparr>id_part = 1, email = ''a@x.edu'', activity_id = 1\<rparr>,
       \<lparr>id_part = 2, email = ''a@x.edu'', activity_id = 2\<rparr>]"
    and acts: "activities_tbl example_store = [example_chess, example_open]"
    and one: "id_act example_chess = 1"
    by (simp_all add: example_defs)
  from unregister_cases [of example_store "''Unknown Club''" "''a@x.edu''"] unknown
  have r1: "unregister_from_activity ''Unknown Club'' ''a@x.edu'' example_store =
     (Inl (HTTPException 404 ''Activity not found''), example_store)"
    by blast
  from unregister_cases [of example_store "''Chess Club''" "''b@x.edu''"]
    example_find_chess new
  have r2: "unregister_from_activity ''Chess Club'' ''b@x.edu'' example_store =
       (Inl (HTTPException 400 ''Student is not signed up for this activity''), example_store)"
    by blast
  let ?s = "snd (unregister_from_activity ''Chess Club'' ''a@x.edu'' example_store)"
  from unregister_cases [of example_store "''Chess Club''" "''a@x.edu''"]
    example_find_chess dup d
  obtain p xs ys where
    split: "participants_tbl example_store = xs @ p # ys"
    and p: "activity_id p = id_act example_chess"
    and msg: "fst (unregister_from_activity ''Chess Club'' ''a@x.edu'' example_store) =
       Inr (''Unregistered '' @ ''a@x.edu'' @ '' from '' @ ''Chess Club'')"
    and a: "activities_tbl ?s = activities_tbl example_store"
    and rest: "participants_tbl ?s = xs @ ys"
    by blast
  from split p have "xs = [] \<and> ys = [\<lparr>id_part = 2, email = ''a@x.edu'', activity_id = 2\<rparr>]"
    unfolding tbl one by (auto simp: Cons_eq_append_conv)
  with rest have r3: "participants_tbl ?s = [\<lparr>id_part = 2, email = ''a@x.edu'', activity_id = 2\<rparr>]"
    by simp
  from msg have r4: "fst (unregister_from_activity ''Chess Club'' ''a@x.edu'' example_store) =
       Inr ''Unregistered a@x.edu from Chess Club''"
    by simp
  from a acts have r5: "activities_tbl ?s = [example_chess, example_open]"
    by simp
  from r1 example_find_chess new r2 dup d r4 r5 r3 show ?thesis
    by (intro conjI)
qed

text \<open>
  C5. Initialisation is idempotent: for every seed (none, empty or not) and every store,
  \<^verbatim>\<open>init_db\<close> run twice leaves the store that one run leaves; and on a store that has an
  activity row already it changes nothing.
\<close>

theorem init_db_idempotent:
  "init_db seed_data (init_db seed_data s) = init_db seed_data s
   \<and> (activities_tbl s \<noteq> [] \<longrightarrow> init_db seed_data s = s)"
proof
  show "activities_tbl s \<noteq> [] \<longrightarrow> init_db seed_data s = s"
    by (simp add: init_db_def split: option.splits)
next
  show "init_db seed_data (init_db seed_data s) = init_db seed_data s"
  proof (cases seed_data)
    case None
    then show ?thesis by (simp add: init_db_def)
  next
    case (Some sd)
    show ?thesis
    proof (cases "sd = [] \<or> activities_tbl s \<noteq> []")
      case True
      with Some show ?thesis by (auto simp: init_db_def)
    next
      case False
      then have "sd \<noteq> []" and "activities_tbl s = []" by simp_all
      then have run: "init_db seed_data s = fold seed_entry sd s"
        using Some by (simp add: init_db_def)
      have "length (activities_tbl (fold seed_entry sd s)) > 0"
        using \<open>sd \<noteq> []\<close> by (simp add: length_activities_fold_seed_entry)
      then have "init_db seed_data (fold seed_entry sd s) = fold seed_entry sd s"
        using Some by (simp add: init_db_def)
      with run show ?thesis by simp
    qed
  qed
qed

theorem init_db_idempotent_witness:
  "activities_tbl (on_startup empty_store) \<noteq> []
   \<and> init_db (Some activities) (on_startup empty_store) = on_startup empty_store
   \<and> init_db (Some activities) (init_db (Some activities) empty_store) =
       init_db (Some activities) empty_store"
proof -
  have ne: "activities_tbl (on_startup empty_store) \<noteq> []"
    using seeded_activities by auto
  from init_db_idempotent [of "Some activities" "on_startup empty_store"] ne
  have "init_db (Some activities) (on_startup empty_store) = on_startup empty_store"
    by blast
  moreover from init_db_idempotent [of "Some activities" empty_store]
  have "init_db (Some activities) (init_db (Some activities) empty_store) =
       init_db (Some activities) empty_store"
    by blast
  ultimately show ?thesis using ne by (intro conjI)
qed

text \<open>
  C6. When a signup for \<open>(A, e)\<close> succeeds, the email was not on the roster of \<open>A\<close>, the
  unregister for \<open>(A, e)\<close> that follows succeeds, and after it the set of emails enrolled in
  \<open>A\<close> is what it was before the signup.
\<close>

theorem signup_unregister_roundtrip:
  assumes "fst (signup_for_activity A e s) = Inr m"
  shows "\<exists>act. first_row (filter (\<lambda>a. name a = A) (activities_tbl s)) = Some act
           \<and> e \<notin> email ` set (participants s act)
           \<and> fst (unregister_from_activity A e (snd (signup_for_activity A e s))) =
               Inr (''Unregistered '' @ e @ '' from '' @ A)
           \<and> email ` set (participants
                 (snd (unregister_from_activity A e (snd (signup_for_activity A e s)))) act)
               = email ` set (participants s act)"
proof (cases A e s rule: signup_outcome)
  case failed
  with assms show ?thesis by simp
next
  case (added act)
  from added(2) have "e \<notin> email ` set (participants s act)"
    by (auto simp: participants_def)
  with added(1) signup_then_unregister [OF assms] show ?thesis
    by simp
qed

theorem signup_unregister_roundtrip_witness:
  "fst (signup_for_activity ''Chess Club'' ''new@x.edu'' (on_startup empty_store)) =
     Inr ''Signed up new@x.edu for Chess Club''
   \<and> fst (unregister_from_activity ''Chess Club'' ''new@x.edu''
          (snd (signup_for_activity ''Chess Club'' ''new@x.edu'' (on_startup empty_store)))) =
       Inr ''Unregistered new@x.edu from Chess Club''"
proof -
  from signup_unregister_roundtrip [OF seeded_signup_new]
  have "fst (unregister_from_activity ''Chess Club'' ''new@x.edu''
          (snd (signup_for_activity ''Chess Club'' ''new@x.edu'' (on_startup empty_store)))) =
       Inr (''Unregistered '' @ ''new@x.edu'' @ '' from '' @ ''Chess Club'')"
    by blast
  with seeded_signup_new show ?thesis by simp
qed

text \<open>
  C7. In every store reachable from the store that \<^verbatim>\<open>on_startup\<close> seeds from the catalog of
  \<^verbatim>\<open>app.py\<close>, by signups, unregisters and restarts run one after the other, each activity
  with positive \<^verbatim>\<open>max_participants\<close> has at most that many participants.
\<close>

theorem capacity_invariant:
  "reachable s \<Longrightarrow>
   \<forall>act\<in>set (activities_tbl s). 0 < max_participants act \<longrightarrow>
     int (length (participants s act)) \<le> max_participants act"
proof (induction rule: reachable.induct)
  case seeded
  show ?case by (rule seeded_capacity)
next
  case (signup s A e)
  from reachable_distinct_ids [OF signup.hyps] signup.IH show ?case
    by (rule signup_capacity)
next
  case (unregister s A e)
  from unregister.IH show ?case by (rule unregister_capacity)
next
  case (restart s)
  have "activities_tbl s \<noteq> []"
    using reachable_activities [OF restart.hyps] seeded_activities by auto
  then have "on_startup s = s" by (rule on_startup_nonempty)
  with restart.IH show ?case by simp
qed

theorem capacity_invariant_witness:
  "reachable (snd (signup_for_activity ''Chess Club'' ''new@x.edu'' (on_startup empty_store)))
   \<and> (\<exists>act. act \<in> set (activities_tbl
          (snd (signup_for_activity ''Chess Club'' ''new@x.edu'' (on_startup empty_store))))
        \<and> name act = ''Chess Club''
        \<and> 0 < max_participants act
        \<and> int (length (participants
            (snd (signup_for_activity ''Chess Club'' ''new@x.edu'' (on_startup empty_store)))
            act)) \<le> max_participants act)"
proof -
  let ?s = "snd (signup_for_activity ''Chess Club'' ''new@x.edu'' (on_startup empty_store))"
  have r: "reachable ?s"
    by (intro reachable.signup reachable.seeded)
  obtain act where act: "act \<in> set (activities_tbl ?s)" "name act = ''Chess Club''"
    "0 < max_participants act"
  proof -
    from seeded_find_chess obtain a where
      a: "first_row (filter (\<lambda>a. name a = ''Chess Club'')
            (activities_tbl (on_startup empty_store))) = Some a"
      "max_participants a = 12"
      by blast
    from first_row_SomeD [OF a(1)] a(2) that [of a] show ?thesis
      by simp
  qed
  from capacity_invariant [OF r] act
  have "int (length (participants ?s act)) \<le> max_participants act"
    by blast
  with r act show ?thesis by blast
qed

text \<open>
  C8. In every store reachable from the store that \<^verbatim>\<open>on_startup\<close> seeds from the catalog of
  \<^verbatim>\<open>app.py\<close>, by signups, unregisters and restarts (which seed again) run one after the
  other, no two participant rows have the same activity id and the same email; so the
  roster of every activity lists each email once.
\<close>

theorem email_unique_invariant:
  "reachable s \<Longrightarrow>
   distinct (map (\<lambda>p. (activity_id p, email p)) (participants_tbl s))
   \<and> (\<forall>act\<in>set (activities_tbl s). distinct (map email (participants s act)))"
proof -
  assume r: "reachable s"
  then have d: "distinct (map (\<lambda>p. (activity_id p, email p)) (participants_tbl s))"
  proof (induction rule: reachable.induct)
    case seeded
    show ?case by (rule seeded_unique)
  next
    case (signup s A e)
    then show ?case by (simp add: signup_unique)
  next
    case (unregister s A e)
    then show ?case by (simp add: unregister_unique)
  next
    case (restart s)
    have "activities_tbl s \<noteq> []"
      using reachable_activities [OF restart.hyps] seeded_activities by auto
    then have "on_startup s = s" by (rule on_startup_nonempty)
    with restart.IH show ?case by simp
  qed
  have "distinct (map email (participants s act))" for act
  proof -
    from d have "distinct (map (\<lambda>p. (activity_id p, email p)) (participants s act))"
      unfolding participants_def by (rule distinct_map_filter)
    then show ?thesis
      unfolding participants_def distinct_map by (auto simp: inj_on_def)
  qed
  with d show ?thesis by simp
qed

theorem email_unique_invariant_witness:
  "reachable (snd (signup_for_activity ''Chess Club'' ''new@x.edu'' (on_startup empty_store)))
   \<and> distinct (map (\<lambda>p. (activity_id p, email p)) (participants_tbl
        (snd (signup_for_activity ''Chess Club'' ''new@x.edu'' (on_startup empty_store)))))"
proof -
  let ?s = "snd (signup_for_activity ''Chess Club'' ''new@x.edu'' (on_startup empty_store))"
  have r: "reachable ?s"
    by (intro reachable.signup reachable.seeded)
  from email_unique_invariant [OF r] r show ?thesis by blast
qed

text \<open>
  C9. Seeding stores 0 as \<^verbatim>\<open>max_participants\<close> when the seed leaves the capacity unset (and
  the seed's value otherwise).  For an activity whose \<^verbatim>\<open>max_participants\<close> is 0, a signup
  with an email that is not on its roster does not fail with "Activity is full", whatever
  the size of the roster: it succeeds.
\<close>

theorem zero_capacity_unlimited:
  "map max_participants (activities_tbl (init_db (Some sd) empty_store)) =
     map (\<lambda>(nm, i). case info_max_participants i of None \<Rightarrow> 0 | Some n \<Rightarrow> n) sd
   \<and> (first_row (filter (\<lambda>a. name a = A) (activities_tbl s)) = Some act
        \<longrightarrow> max_participants act = 0
        \<longrightarrow> e \<notin> email ` set (participants s act)
        \<longrightarrow> fst (signup_for_activity A e s) \<noteq> Inl (HTTPException 400 ''Activity is full'')
            \<and> signup_for_activity A e s =
                (Inr (''Signed up '' @ e @ '' for '' @ A), add_participant e (id_act act) s))"
proof (intro conjI impI)
  have "or_zero v = (case v of None \<Rightarrow> 0 | Some n \<Rightarrow> n)" for v
    by (simp add: or_zero_def split: option.splits)
  then show "map max_participants (activities_tbl (init_db (Some sd) empty_store)) =
     map (\<lambda>(nm, i). case info_max_participants i of None \<Rightarrow> 0 | Some n \<Rightarrow> n) sd"
    by (simp add: init_db_def empty_store_def max_participants_fold_seed_entry)
next
  assume h: "first_row (filter (\<lambda>a. name a = A) (activities_tbl s)) = Some act"
    "max_participants act = 0" "e \<notin> email ` set (participants s act)"
  then show ok: "signup_for_activity A e s =
      (Inr (''Signed up '' @ e @ '' for '' @ A), add_participant e (id_act act) s)"
    by (simp add: signup_for_activity_def enrolled_iff)
  show "fst (signup_for_activity A e s) \<noteq> Inl (HTTPException 400 ''Activity is full'')"
    unfolding ok by simp
qed

theorem zero_capacity_unlimited_witness:
  "first_row (filter (\<lambda>a. name a = ''Open Gym'') (activities_tbl example_store))
     = Some example_open
   \<and> max_participants example_open = 0
   \<and> ''b@x.edu'' \<notin> email ` set (participants example_store example_open)
   \<and> signup_for_activity ''Open Gym'' ''b@x.edu'' example_store =
       (Inr ''Signed up b@x.edu for Open Gym'', add_participant ''b@x.edu'' 2 example_store)
   \<and> map max_participants (activities_tbl (init_db
        (Some [(''Open Gym'', \<lparr>info_description = None, info_schedule = None,
                  info_max_participants = None, info_participants = None\<rparr>)])
        empty_store)) = [0]"
proof -
  have new: "''b@x.edu'' \<notin> email ` set (participants example_store example_open)"
    using example_roster_open by (simp flip: set_map)
  have zero: "max_participants example_open = 0" and two: "id_act example_open = 2"
    by (simp_all add: example_defs)
  from zero_capacity_unlimited [of _ "''Open Gym''" example_store example_open "''b@x.edu''"]
    example_find_open zero new
  have "signup_for_activity ''Open Gym'' ''b@x.edu'' example_store =
       (Inr (''Signed up '' @ ''b@x.edu'' @ '' for '' @ ''Open Gym''),
        add_participant ''b@x.edu'' (id_act example_open) example_store)"
    by blast
  then have r1: "signup_for_activity ''Open Gym'' ''b@x.edu'' example_store =
       (Inr ''Signed up b@x.edu for Open Gym'', add_participant ''b@x.edu'' 2 example_store)"
    by (simp add: two)
  from zero_capacity_unlimited
    [of "[(''Open Gym'', \<lparr>info_description = None, info_schedule = None,
                  info_max_participants = None, info_participants = None\<rparr>)]"
        "''Open Gym''" example_store example_open "''b@x.edu''"]
  have r2: "map max_participants (activities_tbl (init_db
        (Some [(''Open Gym'', \<lparr>info_description = None, info_schedule = None,
                  info_max_participants = None, info_participants = None\<rparr>)])
        empty_store)) = [0]"
    by simp
  from example_find_open zero new r1 r2 show ?thesis by (intro conjI)
qed

text \<open>
  C10. A successful unregister removes exactly one participant row, a row of the activity
  found under \<open>A\<close> with the email \<open>e\<close>: the table was \<open>xs @ p # ys\<close> and becomes \<open>xs @ ys\<close>, and
  the activities table is unchanged.  The hypothesis on the ids is the primary key of the
  \<^verbatim>\<open>participants\<close> table.
\<close>

theorem unregister_frame:
  assumes "fst (unregister_from_activity A e s) = Inr m"
    and "distinct (map id_part (participants_tbl s))"
  shows "\<exists>act p xs ys.
           first_row (filter (\<lambda>a. name a = A) (activities_tbl s)) = Some act
           \<and> activity_id p = id_act act \<and> email p = e
           \<and> participants_tbl s = xs @ p # ys
           \<and> participants_tbl (snd (unregister_from_activity A e s)) = xs @ ys
           \<and> activities_tbl (snd (unregister_from_activity A e s)) = activities_tbl s"
proof (cases A e s rule: unregister_outcome)
  case failed
  with assms(1) show ?thesis by simp
next
  case (deleted act p)
  from first_row_Some_split [OF deleted(2)] obtain xs ys where
    split: "participants_tbl s = xs @ p # ys" and p: "activity_id p = id_act act \<and> email p = e"
    by blast
  from assms(2) have "\<forall>q\<in>set xs \<union> set ys. id_part q \<noteq> id_part p"
    unfolding split by (auto simp: image_iff)
  then have "filter (\<lambda>q. id_part q \<noteq> id_part p) (xs @ p # ys) = xs @ ys"
    by (simp add: filter_id_conv)
  then have "participants_tbl (snd (unregister_from_activity A e s)) = xs @ ys"
    by (simp add: deleted(3) delete_participant_def split)
  with deleted(1) p split show ?thesis
    by (intro exI [of _ act] exI [of _ p] exI [of _ xs] exI [of _ ys]) simp
qed

theorem unregister_frame_witness:
  "fst (unregister_from_activity ''Chess Club'' ''a@x.edu'' example_store) =
     Inr ''Unregistered a@x.edu from Chess Club''
   \<and> distinct (map id_part (participants_tbl example_store))
   \<and> length (participants_tbl
        (snd (unregister_from_activity ''Chess Club'' ''a@x.edu'' example_store))) + 1 =
       length (participants_tbl example_store)
   \<and> activities_tbl (snd (unregister_from_activity ''Chess Club'' ''a@x.edu'' example_store))
       = activities_tbl example_store"
proof -
  have ok: "fst (unregister_from_activity ''Chess Club'' ''a@x.edu'' example_store) =
     Inr ''Unregistered a@x.edu from Chess Club''"
    by (simp add: unregister_from_activity_def example_defs)
  have d: "distinct (map id_part (participants_tbl example_store))"
    by (simp add: example_defs)
  from unregister_frame [OF ok d] obtain p xs ys where
    "participants_tbl example_store = xs @ p # ys"
    "participants_tbl (snd (unregister_from_activity ''Chess Club'' ''a@x.edu'' example_store))
       = xs @ ys"
    "activities_tbl (snd (unregister_from_activity ''Chess Club'' ''a@x.edu'' example_store))
       = activities_tbl example_store"
    by blast
  then have "length (participants_tbl
        (snd (unregister_from_activity ''Chess Club'' ''a@x.edu'' example_store))) + 1 =
       length (participants_tbl example_store)"
    and "activities_tbl (snd (unregister_from_activity ''Chess Club'' ''a@x.edu'' example_store))
       = activities_tbl example_store"
    by simp_all
  with ok d show ?thesis by (intro conjI)
qed

end
